theory Spec2Isabelle
  imports Complex_Main
begin

section \<open>Numbers, device and plan messages\<close>

text \<open>
  The controller of \<^verbatim>\<open>classes.py\<close> (\<^verbatim>\<open>ramp_scan\<close>, \<^verbatim>\<open>await_in_band\<close>, \<^verbatim>\<open>_per_step\<close>)
  computes with Python floats. A float that is a number is modelled by the real it
  denotes. Two quotients of the program are truncated to integers by \<^verbatim>\<open>int\<close>, and a
  truncation can turn the rounding error of a double operation into a different count:
  \<^verbatim>\<open>int(0.3/0.1)\<close> is \<open>2\<close>. In these two places the model therefore rounds each
  operation with the rounding function of the machine, which it takes from the
  environment (\<open>rounding\<close> below) and about which nothing is assumed. Elsewhere a result
  stands for the double nearest to it. Floats that are not numbers are the subject of
  the section on a slew rate that is not a number. \<^verbatim>\<open>int(x)\<close> truncates towards zero.
\<close>

definition py_int :: "real \<Rightarrow> int" where
  "py_int x = (if 0 \<le> x then \<lfloor>x\<rfloor> else \<lceil>x\<rceil>)"

text \<open>
  What the controller does to the outside world, in order: the power-on command
  (\<^verbatim>\<open>bps.mv(ps.cmdPwrOn, 1)\<close>), a setpoint write (\<^verbatim>\<open>bps.mv(motor, step)\<close>), a sleep
  (\<^verbatim>\<open>bps.sleep\<close>), a read of \<^verbatim>\<open>rdCur\<close>, a read of \<^verbatim>\<open>rdCurSlewRate\<close>, and the measurement
  (\<^verbatim>\<open>bps.trigger_and_read\<close>).
\<close>

datatype event = PowerOn | SetCur real | Sleep real | ReadCur | ReadSlew | Trigger

text \<open>
  The exceptions of the controller: the division by zero of \<^verbatim>\<open>(stop-start)/step\<close>,
  \<^verbatim>\<open>stable_time/dwell\<close> and \<^verbatim>\<open>abs(step - last)/slew\<close>; the \<^verbatim>\<open>TimeoutError\<close> of the waiter,
  whose message is built from \<^verbatim>\<open>tol\<close> and \<^verbatim>\<open>target\<close>; and a failing \<^verbatim>\<open>get()\<close> of \<^verbatim>\<open>rdCur\<close>.
\<close>

datatype error = ZeroDivisionError | TimeoutError real real | DeviceReadError

text \<open>
  The device is seen through its two read-only signals. \<open>rdCur ps k\<close> is what the
  \<open>k\<close>-th call of \<^verbatim>\<open>ps.rdCur.get()\<close> made by the controller returns (after \<^verbatim>\<open>float\<close>), and
  \<open>None\<close> when that call raises; likewise \<open>rdCurSlewRate\<close>.
\<close>

record device =
  rdCur :: "nat \<Rightarrow> real option"
  rdCurSlewRate :: "nat \<Rightarrow> real option"

text \<open>
  The state threaded through a plan: the wall clock read by \<^verbatim>\<open>time.time()\<close>, the number
  of reads made so far of each signal, the trace of events, oldest first, and how the
  machine rounds the exact result of a double operation (no plan changes it). The clock
  is a simulated one: a sleep advances it by its duration (a negative duration by
  nothing), device I/O takes no time. The writes and the measurement are taken to
  succeed; the reads that the measurement itself makes are part of the \<open>Trigger\<close> event
  and are not counted among the samples of the controller.
\<close>

record world =
  clock :: real
  n_cur :: nat
  n_slew :: nat
  trace :: "event list"
  rounding :: "real \<Rightarrow> real"

type_synonym outcome = "((error + unit) \<times> world) option"

definition sleep :: "real \<Rightarrow> world \<Rightarrow> world" where
  "sleep d w = w\<lparr>clock := clock w + max 0 d, trace := trace w @ [Sleep d]\<rparr>"

definition get_rdCur :: "device \<Rightarrow> world \<Rightarrow> real option \<times> world" where
  "get_rdCur ps w =
     (rdCur ps (n_cur w), w\<lparr>n_cur := Suc (n_cur w), trace := trace w @ [ReadCur]\<rparr>)"

definition get_rdCurSlewRate :: "device \<Rightarrow> world \<Rightarrow> real option \<times> world" where
  "get_rdCurSlewRate ps w =
     (rdCurSlewRate ps (n_slew w),
      w\<lparr>n_slew := Suc (n_slew w), trace := trace w @ [ReadSlew]\<rparr>)"

definition mv_cmdPwrOn :: "world \<Rightarrow> world" where
  "mv_cmdPwrOn w = w\<lparr>trace := trace w @ [PowerOn]\<rparr>"

definition mv_wrCurRamp :: "real \<Rightarrow> world \<Rightarrow> world" where
  "mv_wrCurRamp v w = w\<lparr>trace := trace w @ [SetCur v]\<rparr>"

definition trigger_and_read :: "world \<Rightarrow> world" where
  "trigger_and_read w = w\<lparr>trace := trace w @ [Trigger]\<rparr>"

text \<open>A keyword argument with a default: \<open>None\<close> when the caller omits it.\<close>

definition kw_default :: "'a \<Rightarrow> 'a option \<Rightarrow> 'a" where
  "kw_default d x = (case x of None \<Rightarrow> d | Some v \<Rightarrow> v)"

section \<open>The in-band waiter\<close>

text \<open>
  \<^verbatim>\<open>need = max(1, int(stable_time/dwell))\<close>, for a non-zero \<^verbatim>\<open>dwell\<close>; \<open>fl\<close> rounds the
  quotient as the machine does.
\<close>

definition need_samples :: "(real \<Rightarrow> real) \<Rightarrow> real \<Rightarrow> real \<Rightarrow> int" where
  "need_samples fl stable_time dwell = max 1 (py_int (fl (stable_time / dwell)))"

text \<open>
  The \<^verbatim>\<open>while True\<close> loop of \<^verbatim>\<open>await_in_band\<close>, entered with the counter \<open>ok\<close> and the
  start time \<open>t0\<close>. It need not terminate, so its result is an option: \<open>None\<close> is a
  loop that never returns.
\<close>

partial_function (option) await_loop ::
  "device \<Rightarrow> real \<Rightarrow> real \<Rightarrow> real \<Rightarrow> real \<Rightarrow> int \<Rightarrow> real \<Rightarrow> int \<Rightarrow> world \<Rightarrow> outcome"
where
  "await_loop ps target tol dwell max_time need t0 ok w =
     (case get_rdCur ps w of
        (None, w1) \<Rightarrow> Some (Inl DeviceReadError, w1)
      | (Some v, w1) \<Rightarrow>
          (let err = \<bar>v - target\<bar>;
               ok' = (if err \<le> tol then ok + 1 else 0)
           in if ok' \<ge> need then Some (Inr (), w1)
              else if clock w1 - t0 > max_time
                then Some (Inl (TimeoutError tol target), w1)
              else await_loop ps target tol dwell max_time need t0 ok' (sleep dwell w1)))"

definition await_in_band ::
  "device \<Rightarrow> real \<Rightarrow> real \<Rightarrow> real \<Rightarrow> real \<Rightarrow> real \<Rightarrow> world \<Rightarrow> outcome"
where
  "await_in_band ps target tol dwell stable_time max_time w =
     (if dwell = 0 then Some (Inl ZeroDivisionError, w)
      else let need = need_samples (rounding w) stable_time dwell; t0 = clock w
           in await_loop ps target tol dwell max_time need t0 0 w)"

text \<open>
  A call of \<^verbatim>\<open>await_in_band(ps, target, tol=0.02, dwell=0.1, stable_time=0.4, max_time=10)\<close>
  with its keyword defaults.
\<close>

definition await_in_band_kw ::
  "device \<Rightarrow> real \<Rightarrow> real option \<Rightarrow> real option \<Rightarrow> real option \<Rightarrow> real option \<Rightarrow> world
     \<Rightarrow> outcome"
where
  "await_in_band_kw ps target tol dwell stable_time max_time w =
     await_in_band ps target (kw_default (2/100) tol) (kw_default (1/10) dwell)
       (kw_default (4/10) stable_time) (kw_default 10 max_time) w"

section \<open>The per-step executor\<close>

text \<open>
  The \<^verbatim>\<open>try\<close> block of \<^verbatim>\<open>_per_step\<close>: the slew rate read from the device, or \<open>0.1\<close> when
  the read raises or the value is not positive. The reading here is a number; what the
  block does with a reading that is not a number is \<open>slew_after_guard\<close> below.
\<close>

definition read_slew :: "device \<Rightarrow> world \<Rightarrow> real \<times> world" where
  "read_slew ps w =
     (case get_rdCurSlewRate ps w of
        (None, w') \<Rightarrow> (1/10, w')
      | (Some s, w') \<Rightarrow> (if s \<le> 0 then 1/10 else s, w'))"

text \<open>The end of a step: the hold and the measurement, reached when the waiter returns.\<close>

definition hold_and_measure :: "real \<Rightarrow> outcome \<Rightarrow> outcome" where
  "hold_and_measure hold_s r =
     (case r of
        None \<Rightarrow> None
      | Some (Inl e, w5) \<Rightarrow> Some (Inl e, w5)
      | Some (Inr _, w5) \<Rightarrow> Some (Inr (), trigger_and_read (sleep hold_s w5)))"

text \<open>\<^verbatim>\<open>dyn_to = base_timeout + abs(step - last)/slew + 2.0\<close>, for a non-zero \<^verbatim>\<open>slew\<close>.\<close>

definition dyn_timeout :: "real \<Rightarrow> real \<Rightarrow> real \<Rightarrow> real \<Rightarrow> real" where
  "dyn_timeout base_timeout step last_rd slew = base_timeout + \<bar>step - last_rd\<bar> / slew + 2"

definition per_step ::
  "device \<Rightarrow> real \<Rightarrow> real \<Rightarrow> real \<Rightarrow> real \<Rightarrow> real \<Rightarrow> world \<Rightarrow> outcome"
where
  "per_step ps pre_wait_s hold_s tol base_timeout step w =
     (let w1 = sleep pre_wait_s w;
          w2 = mv_wrCurRamp step w1;
          (slew, w3) = read_slew ps w2
      in case get_rdCur ps w3 of
           (None, w4) \<Rightarrow> Some (Inl DeviceReadError, w4)
         | (Some last_rd, w4) \<Rightarrow>
             if slew = 0 then Some (Inl ZeroDivisionError, w4)
             else let dyn_to = dyn_timeout base_timeout step last_rd slew
                  in hold_and_measure hold_s
                       (await_in_band_kw ps step (Some tol) None None (Some dyn_to) w4))"

section \<open>The scan\<close>

text \<open>
  \<^verbatim>\<open>bluesky.plans.scan(detectors, motor, start, stop, num, per_step=f)\<close> is library code.
  As documented there, it moves the motor over \<^verbatim>\<open>num\<close> evenly spaced points from
  \<^verbatim>\<open>start\<close> to \<^verbatim>\<open>stop\<close>, both included (\<^verbatim>\<open>numpy.linspace\<close>), running \<^verbatim>\<open>f\<close> once per point
  in order; an exception raised by \<^verbatim>\<open>f\<close> ends the plan.
\<close>

definition linspace :: "real \<Rightarrow> real \<Rightarrow> nat \<Rightarrow> real list" where
  "linspace start stop num =
     (if num = 1 then [start]
      else map (\<lambda>i. start + real i * ((stop - start) / real (num - 1))) [0..<num])"

fun run_steps :: "(real \<Rightarrow> world \<Rightarrow> outcome) \<Rightarrow> real list \<Rightarrow> world \<Rightarrow> outcome" where
  "run_steps f [] w = Some (Inr (), w)"
| "run_steps f (p # ps) w =
     (case f p w of
        None \<Rightarrow> None
      | Some (Inl e, w') \<Rightarrow> Some (Inl e, w')
      | Some (Inr _, w') \<Rightarrow> run_steps f ps w')"

definition scan_plan ::
  "(real \<Rightarrow> world \<Rightarrow> outcome) \<Rightarrow> real \<Rightarrow> real \<Rightarrow> nat \<Rightarrow> world \<Rightarrow> outcome"
where
  "scan_plan f start stop num w = run_steps f (linspace start stop num) w"

text \<open>
  \<^verbatim>\<open>npts = int(abs((stop-start)/step)) + 1\<close>, for a non-zero \<^verbatim>\<open>step\<close>; \<open>fl\<close> rounds the
  difference and the quotient as the machine does.
\<close>

definition npts :: "(real \<Rightarrow> real) \<Rightarrow> real \<Rightarrow> real \<Rightarrow> real \<Rightarrow> int" where
  "npts fl start stop step = py_int \<bar>fl (fl (stop - start) / step)\<bar> + 1"

text \<open>
  \<^verbatim>\<open>ramp_scan(ps, start, stop, step, pre_wait_s=3, hold_s=2, tol=0.02, base_timeout=5)\<close>.
  The number of points is computed first, so a zero \<^verbatim>\<open>step\<close> raises before the power-on
  command.
\<close>

definition ramp_scan ::
  "device \<Rightarrow> real \<Rightarrow> real \<Rightarrow> real \<Rightarrow> real option \<Rightarrow> real option \<Rightarrow> real option \<Rightarrow> real option
     \<Rightarrow> world \<Rightarrow> outcome"
where
  "ramp_scan ps start stop step pre_wait_s hold_s tol base_timeout w =
     (if step = 0 then Some (Inl ZeroDivisionError, w)
      else let n = npts (rounding w) start stop step;
               w1 = mv_cmdPwrOn w;
               custom = per_step ps (kw_default 3 pre_wait_s) (kw_default 2 hold_s)
                          (kw_default (2/100) tol) (kw_default 5 base_timeout)
           in scan_plan custom start stop (nat n) w1)"

section \<open>A slew rate that is not a number\<close>

text \<open>
  A Python float is a number or NaN (the infinities are left out: an infinite slew rate
  is either replaced by the guard or positive). Every ordering test with NaN is false,
  and NaN goes through the arithmetic; Python raises on a zero divisor before it looks
  at the dividend.
\<close>

datatype pyfloat = Num real | NaN

definition py_le :: "pyfloat \<Rightarrow> pyfloat \<Rightarrow> bool" where
  "py_le x y = (case x of NaN \<Rightarrow> False | Num a \<Rightarrow> (case y of NaN \<Rightarrow> False | Num b \<Rightarrow> a \<le> b))"

definition py_gt :: "pyfloat \<Rightarrow> pyfloat \<Rightarrow> bool" where
  "py_gt x y = (case x of NaN \<Rightarrow> False | Num a \<Rightarrow> (case y of NaN \<Rightarrow> False | Num b \<Rightarrow> a > b))"

definition py_add :: "pyfloat \<Rightarrow> pyfloat \<Rightarrow> pyfloat" where
  "py_add x y = (case x of NaN \<Rightarrow> NaN | Num a \<Rightarrow> (case y of NaN \<Rightarrow> NaN | Num b \<Rightarrow> Num (a + b)))"

definition py_sub :: "pyfloat \<Rightarrow> pyfloat \<Rightarrow> pyfloat" where
  "py_sub x y = (case x of NaN \<Rightarrow> NaN | Num a \<Rightarrow> (case y of NaN \<Rightarrow> NaN | Num b \<Rightarrow> Num (a - b)))"

definition py_abs :: "pyfloat \<Rightarrow> pyfloat" where
  "py_abs x = (case x of NaN \<Rightarrow> NaN | Num a \<Rightarrow> Num \<bar>a\<bar>)"

definition py_div :: "pyfloat \<Rightarrow> pyfloat \<Rightarrow> error + pyfloat" where
  "py_div x y =
     (case y of
        NaN \<Rightarrow> Inr NaN
      | Num b \<Rightarrow>
          if b = 0 then Inl ZeroDivisionError
          else (case x of NaN \<Rightarrow> Inr NaN | Num a \<Rightarrow> Inr (Num (a / b))))"

text \<open>
  Lines 127 to 132 of \<^verbatim>\<open>_per_step\<close> on floats: \<open>None\<close> is a read that raises.
\<close>

definition slew_after_guard :: "pyfloat option \<Rightarrow> pyfloat" where
  "slew_after_guard r =
     (case r of
        None \<Rightarrow> Num (1/10)
      | Some slew \<Rightarrow> if py_le slew (Num 0) then Num (1/10) else slew)"

text \<open>Line 135 on floats: \<^verbatim>\<open>dyn_to = base_timeout + abs(step - last)/slew + 2.0\<close>.\<close>

definition dyn_to_float :: "pyfloat \<Rightarrow> pyfloat \<Rightarrow> pyfloat \<Rightarrow> pyfloat \<Rightarrow> error + pyfloat" where
  "dyn_to_float base_timeout step last_rd slew =
     (case py_div (py_abs (py_sub step last_rd)) slew of
        Inl e \<Rightarrow> Inl e
      | Inr q \<Rightarrow> Inr (py_add (py_add base_timeout q) (Num 2)))"

text \<open>
  Line 119 of \<^verbatim>\<open>await_in_band\<close> on floats: \<^verbatim>\<open>time.time() - t0 > max_time\<close>.
\<close>

definition timed_out :: "real \<Rightarrow> pyfloat \<Rightarrow> bool" where
  "timed_out elapsed max_time = py_gt (Num elapsed) max_time"

section \<open>Vocabulary of the statements\<close>

text \<open>
  The \<open>k\<close>-th sample of \<^verbatim>\<open>rdCur\<close> is in band when it was read and its distance to the
  target is at most the tolerance, out of band when it was read and the distance exceeds
  the tolerance.
\<close>

definition in_band :: "device \<Rightarrow> real \<Rightarrow> real \<Rightarrow> nat \<Rightarrow> bool" where
  "in_band ps target tol k =
     (case rdCur ps k of None \<Rightarrow> False | Some v \<Rightarrow> \<bar>v - target\<bar> \<le> tol)"

definition out_band :: "device \<Rightarrow> real \<Rightarrow> real \<Rightarrow> nat \<Rightarrow> bool" where
  "out_band ps target tol k =
     (case rdCur ps k of None \<Rightarrow> False | Some v \<Rightarrow> tol < \<bar>v - target\<bar>)"

text \<open>The world after one more read of \<^verbatim>\<open>rdCur\<close>.\<close>

definition sampled :: "world \<Rightarrow> world" where
  "sampled w = w\<lparr>n_cur := Suc (n_cur w), trace := trace w @ [ReadCur]\<rparr>"

text \<open>The world after \<open>k\<close> rounds of the polling loop: a sample, then a sleep of \<open>dwell\<close>.\<close>

definition polled :: "real \<Rightarrow> nat \<Rightarrow> world \<Rightarrow> world" where
  "polled dwell k w =
     w\<lparr>clock := clock w + real k * max 0 dwell,
       n_cur := n_cur w + k,
       trace := trace w @ concat (replicate k [ReadCur, Sleep dwell])\<rparr>"


text \<open>
  The world in which \<^verbatim>\<open>_per_step\<close> calls the waiter: after the pre-wait, the setpoint
  write, the read of the slew rate and the read of \<^verbatim>\<open>last\<close>.
\<close>

definition at_waiter :: "real \<Rightarrow> real \<Rightarrow> world \<Rightarrow> world" where
  "at_waiter pre_wait_s step w =
     w\<lparr>clock := clock w + max 0 pre_wait_s,
       n_cur := Suc (n_cur w),
       n_slew := Suc (n_slew w),
       trace := trace w @ [Sleep pre_wait_s, SetCur step, ReadSlew, ReadCur]\<rparr>"

text \<open>
  What holds of every result of the polling loop: it only added samples and sleeps of
  \<open>dwell\<close> to the trace and stopped right after a sample; it raised no division by zero;
  and a timeout carries the tolerance and the target and was raised strictly after
  \<open>max_time\<close>.
\<close>

definition loop_post ::
  "real \<Rightarrow> real \<Rightarrow> real \<Rightarrow> real \<Rightarrow> real \<Rightarrow> world \<Rightarrow> (error + unit) \<times> world \<Rightarrow> bool"
where
  "loop_post target tol dwell max_time t0 w y =
     ((\<exists>evs. trace (snd y) = trace w @ evs @ [ReadCur] \<and> set evs \<subseteq> {ReadCur, Sleep dwell})
      \<and> fst y \<noteq> Inl ZeroDivisionError
      \<and> (\<forall>a b. fst y = Inl (TimeoutError a b) \<longrightarrow>
             a = tol \<and> b = target \<and> max_time < clock (snd y) - t0))"

text \<open>
  The per-step executor as the interface description words it: the waiter polls with
  the \<open>dwell\<close>, \<open>stable_time\<close> and \<open>max_time\<close> that the caller of the scan supplies.
  It is compared with \<open>per_step\<close> below.
\<close>

definition per_step_spec ::
  "device \<Rightarrow> real \<Rightarrow> real \<Rightarrow> real \<Rightarrow> real \<Rightarrow> real \<Rightarrow> real \<Rightarrow> real \<Rightarrow> world \<Rightarrow> outcome"
where
  "per_step_spec ps pre_wait_s hold_s tol dwell stable_time max_time step w =
     (let w1 = sleep pre_wait_s w;
          w2 = mv_wrCurRamp step w1;
          (slew, w3) = read_slew ps w2
      in case get_rdCur ps w3 of
           (None, w4) \<Rightarrow> Some (Inl DeviceReadError, w4)
         | (Some last_rd, w4) \<Rightarrow>
             hold_and_measure hold_s
               (await_in_band ps step tol dwell stable_time max_time w4))"

subsection \<open>Example devices\<close>

text \<open>The world before anything happened, on a machine that rounds nothing.\<close>

definition fresh :: world where
  "fresh = \<lparr>clock = 0, n_cur = 0, n_slew = 0, trace = [], rounding = (\<lambda>x. x)\<rparr>"

text \<open>A device whose readback stays at \<open>c\<close> and that reports the slew rate \<open>s\<close>.\<close>

definition steady :: "real \<Rightarrow> real \<Rightarrow> device" where
  "steady c s = \<lparr>rdCur = (\<lambda>_. Some c), rdCurSlewRate = (\<lambda>_. Some s)\<rparr>"


text \<open>A device whose slew-rate read raises.\<close>

definition mute_slew :: device where
  "mute_slew = \<lparr>rdCur = (\<lambda>_. Some 0), rdCurSlewRate = (\<lambda>_. None)\<rparr>"

section \<open>The polling loop, one round at a time\<close>

lemma get_rdCur_eq: "get_rdCur ps w = (rdCur ps (n_cur w), sampled w)"
  by (simp add: get_rdCur_def sampled_def)

lemma rounding_kept [simp]:
  "rounding (sampled w) = rounding w"
  "rounding (sleep d w) = rounding w"
  "rounding (polled dwell k w) = rounding w"
  "rounding (at_waiter pre_wait_s step w) = rounding w"
  "rounding (mv_cmdPwrOn w) = rounding w"
  by (simp_all add: sampled_def sleep_def polled_def at_waiter_def mv_cmdPwrOn_def)

lemma polled_0: "polled dwell 0 w = w"
  by (simp add: polled_def)

lemma polled_Suc: "polled dwell k (sleep dwell (sampled w)) = polled dwell (Suc k) w"
  by (simp add: polled_def sleep_def sampled_def algebra_simps)

lemma await_loop_in:
  assumes "in_band ps target tol (n_cur w)"
  shows "await_loop ps target tol dwell max_time need t0 ok w =
     (if need \<le> ok + 1 then Some (Inr (), sampled w)
      else if max_time < clock w - t0 then Some (Inl (TimeoutError tol target), sampled w)
      else await_loop ps target tol dwell max_time need t0 (ok + 1) (sleep dwell (sampled w)))"
  using assms
  by (subst await_loop.simps)
     (auto simp: get_rdCur_eq in_band_def sampled_def split: option.splits)

lemma await_loop_out:
  assumes "out_band ps target tol (n_cur w)"
  shows "await_loop ps target tol dwell max_time need t0 ok w =
     (if need \<le> 0 then Some (Inr (), sampled w)
      else if max_time < clock w - t0 then Some (Inl (TimeoutError tol target), sampled w)
      else await_loop ps target tol dwell max_time need t0 0 (sleep dwell (sampled w)))"
  using assms
  by (subst await_loop.simps)
     (auto simp: get_rdCur_eq out_band_def sampled_def split: option.splits)

lemma await_loop_read_fails:
  assumes "rdCur ps (n_cur w) = None"
  shows "await_loop ps target tol dwell max_time need t0 ok w = Some (Inl DeviceReadError, sampled w)"
  using assms
  by (subst await_loop.simps) (simp add: get_rdCur_eq)

lemma run_in_band:
  assumes "\<forall>j<k. in_band ps target tol (n_cur w + j)"
    and "ok + int k < need"
    and "\<forall>j<k. clock w + real j * max 0 dwell - t0 \<le> max_time"
  shows "await_loop ps target tol dwell max_time need t0 ok w =
         await_loop ps target tol dwell max_time need t0 (ok + int k) (polled dwell k w)"
  using assms
proof (induction k arbitrary: ok w)
  case 0
  then show ?case by (simp add: polled_0)
next
  case (Suc k)
  let ?w = "sleep dwell (sampled w)"
  have a: "in_band ps target tol (n_cur w)"
    using Suc.prems(1) by (metis add.right_neutral zero_less_Suc)
  have b: "\<not> need \<le> ok + 1" using Suc.prems(2) by simp
  have c: "\<not> max_time < clock w - t0"
    using Suc.prems(3) by (metis add.right_neutral mult_zero_left not_le of_nat_0 zero_less_Suc)
  have n: "n_cur ?w = Suc (n_cur w)" and cl: "clock ?w = clock w + max 0 dwell"
    by (simp_all add: sleep_def sampled_def)
  have 1: "\<forall>j<k. in_band ps target tol (n_cur ?w + j)"
  proof (intro allI impI)
    fix j assume "j < k"
    then have "Suc j < Suc k" by simp
    then have "in_band ps target tol (n_cur w + Suc j)" using Suc.prems(1) by blast
    then show "in_band ps target tol (n_cur ?w + j)" by (simp add: n)
  qed
  have 2: "(ok + 1) + int k < need" using Suc.prems(2) by simp
  have 3: "\<forall>j<k. clock ?w + real j * max 0 dwell - t0 \<le> max_time"
  proof (intro allI impI)
    fix j assume "j < k"
    then have "Suc j < Suc k" by simp
    then have "clock w + real (Suc j) * max 0 dwell - t0 \<le> max_time" using Suc.prems(3) by blast
    then show "clock ?w + real j * max 0 dwell - t0 \<le> max_time"
      by (simp add: cl algebra_simps)
  qed
  have "await_loop ps target tol dwell max_time need t0 ok w =
        await_loop ps target tol dwell max_time need t0 (ok + 1) ?w"
    using a b c by (simp add: await_loop_in)
  also have "\<dots> = await_loop ps target tol dwell max_time need t0 ((ok + 1) + int k) (polled dwell k ?w)"
    by (rule Suc.IH [OF 1 2 3])
  finally show ?case by (simp add: polled_Suc add.assoc)
qed

lemma run_out_band:
  assumes "\<forall>j<k. out_band ps target tol (n_cur w + j)"
    and "0 < need"
    and "\<forall>j<k. clock w + real j * max 0 dwell - t0 \<le> max_time"
  shows "await_loop ps target tol dwell max_time need t0 ok w =
         await_loop ps target tol dwell max_time need t0 (if k = 0 then ok else 0) (polled dwell k w)"
  using assms
proof (induction k arbitrary: ok w)
  case 0
  then show ?case by (simp add: polled_0)
next
  case (Suc k)
  let ?w = "sleep dwell (sampled w)"
  have a: "out_band ps target tol (n_cur w)"
    using Suc.prems(1) by (metis add.right_neutral zero_less_Suc)
  have b: "\<not> need \<le> 0" using Suc.prems(2) by simp
  have c: "\<not> max_time < clock w - t0"
    using Suc.prems(3) by (metis add.right_neutral mult_zero_left not_le of_nat_0 zero_less_Suc)
  have n: "n_cur ?w = Suc (n_cur w)" and cl: "clock ?w = clock w + max 0 dwell"
    by (simp_all add: sleep_def sampled_def)
  have 1: "\<forall>j<k. out_band ps target tol (n_cur ?w + j)"
  proof (intro allI impI)
    fix j assume "j < k"
    then have "Suc j < Suc k" by simp
    then have "out_band ps target tol (n_cur w + Suc j)" using Suc.prems(1) by blast
    then show "out_band ps target tol (n_cur ?w + j)" by (simp add: n)
  qed
  have 3: "\<forall>j<k. clock ?w + real j * max 0 dwell - t0 \<le> max_time"
  proof (intro allI impI)
    fix j assume "j < k"
    then have "Suc j < Suc k" by simp
    then have "clock w + real (Suc j) * max 0 dwell - t0 \<le> max_time" using Suc.prems(3) by blast
    then show "clock ?w + real j * max 0 dwell - t0 \<le> max_time"
      by (simp add: cl algebra_simps)
  qed
  have "await_loop ps target tol dwell max_time need t0 ok w =
        await_loop ps target tol dwell max_time need t0 0 ?w"
    using a b c by (simp add: await_loop_out)
  also have "\<dots> = await_loop ps target tol dwell max_time need t0 (if k = 0 then 0 else 0) (polled dwell k ?w)"
    by (rule Suc.IH [OF 1 Suc.prems(2) 3])
  finally show ?case by (simp add: polled_Suc)
qed

section \<open>Runs of the waiter\<close>

lemma need_samples_pos: "1 \<le> need_samples fl stable_time dwell"
  by (simp add: need_samples_def)

lemma n_cur_polled: "n_cur (polled dwell k w) = n_cur w + k"
  and clock_polled: "clock (polled dwell k w) = clock w + real k * max 0 dwell"
  by (simp_all add: polled_def)

lemma await_all_in_band:
  assumes dw: "dwell \<noteq> 0"
    and inb: "\<forall>j. in_band ps target tol (n_cur w + j)"
    and mt: "need_samples (rounding w) stable_time dwell = 1 \<or>
             (real_of_int (need_samples (rounding w) stable_time dwell) - 2) * max 0 dwell \<le> max_time"
  shows "await_in_band ps target tol dwell stable_time max_time w =
         Some (Inr (), sampled (polled dwell (nat (need_samples (rounding w) stable_time dwell - 1)) w))"
proof -
  define N where "N = need_samples (rounding w) stable_time dwell"
  define k where "k = nat (N - 1)"
  have N1: "1 \<le> N" unfolding N_def by (rule need_samples_pos)
  have ik: "int k = N - 1" using N1 by (simp add: k_def)
  have 1: "\<forall>j<k. in_band ps target tol (n_cur w + j)" using inb by blast
  have 2: "0 + int k < N" using ik by simp
  have 3: "\<forall>j<k. clock w + real j * max 0 dwell - clock w \<le> max_time"
  proof (intro allI impI)
    fix j assume jk: "j < k"
    then have "N \<noteq> 1" using ik by auto
    then have b: "(real_of_int N - 2) * max 0 dwell \<le> max_time" using mt by (simp add: N_def)
    have "int j \<le> N - 2" using jk ik by linarith
    then have "real j \<le> real_of_int N - 2" by (metis of_int_diff of_int_le_iff of_int_numeral of_int_of_nat_eq)
    then have "real j * max 0 dwell \<le> (real_of_int N - 2) * max 0 dwell"
      by (intro mult_right_mono) simp_all
    then show "clock w + real j * max 0 dwell - clock w \<le> max_time" using b by simp
  qed
  have "await_in_band ps target tol dwell stable_time max_time w =
        await_loop ps target tol dwell max_time N (clock w) 0 w"
    using dw by (simp add: await_in_band_def N_def)
  also have "\<dots> = await_loop ps target tol dwell max_time N (clock w) (0 + int k) (polled dwell k w)"
    by (rule run_in_band [OF 1 2 3])
  also have "\<dots> = Some (Inr (), sampled (polled dwell k w))"
  proof -
    have "in_band ps target tol (n_cur (polled dwell k w))"
      using inb by (simp add: n_cur_polled)
    then show ?thesis using ik by (simp add: await_loop_in)
  qed
  finally show ?thesis by (simp add: k_def N_def)
qed

lemma ticks_bounds:
  fixes dwell max_time :: real
  assumes "0 < dwell" and "0 \<le> max_time"
  defines "k \<equiv> nat (\<lfloor>max_time / dwell\<rfloor> + 1)"
  shows "max_time < real k * dwell" and "real k * dwell \<le> max_time + dwell"
    and "\<forall>j<k. real j * dwell \<le> max_time"
proof -
  have q0: "0 \<le> \<lfloor>max_time / dwell\<rfloor>" using assms by simp
  then have rk: "real k = real_of_int \<lfloor>max_time / dwell\<rfloor> + 1" by (simp add: k_def)
  have "max_time / dwell < real k" unfolding rk by linarith
  then show "max_time < real k * dwell" using assms(1) by (simp add: pos_divide_less_eq)
  have "real k \<le> max_time / dwell + 1" unfolding rk by linarith
  then have "real k * dwell \<le> (max_time / dwell + 1) * dwell"
    using assms(1) by (intro mult_right_mono) simp_all
  then show "real k * dwell \<le> max_time + dwell" using assms(1) by (simp add: algebra_simps)
  show "\<forall>j<k. real j * dwell \<le> max_time"
  proof (intro allI impI)
    fix j assume "j < k"
    then have "int j \<le> \<lfloor>max_time / dwell\<rfloor>" using q0 by (simp add: k_def)
    then have "real j \<le> max_time / dwell" by (simp add: le_floor_iff)
    then show "real j * dwell \<le> max_time" using assms(1) by (simp add: pos_le_divide_eq)
  qed
qed

lemma await_all_out_band:
  assumes dw: "0 < dwell" and mt: "0 \<le> max_time"
    and outb: "\<forall>j. out_band ps target tol (n_cur w + j)"
  shows "await_in_band ps target tol dwell stable_time max_time w =
         Some (Inl (TimeoutError tol target),
               sampled (polled dwell (nat (\<lfloor>max_time / dwell\<rfloor> + 1)) w))"
proof -
  define N where "N = need_samples (rounding w) stable_time dwell"
  define k where "k = nat (\<lfloor>max_time / dwell\<rfloor> + 1)"
  have N1: "0 < N" using need_samples_pos [of "rounding w" stable_time dwell] by (simp add: N_def)
  have md: "max 0 dwell = dwell" using dw by simp
  have 1: "\<forall>j<k. out_band ps target tol (n_cur w + j)" using outb by blast
  have 3: "\<forall>j<k. clock w + real j * max 0 dwell - clock w \<le> max_time"
    using ticks_bounds(3) [OF dw mt] by (simp add: md k_def)
  have late: "max_time < real k * dwell"
    using ticks_bounds(1) [OF dw mt] by (simp add: k_def)
  have "await_in_band ps target tol dwell stable_time max_time w =
        await_loop ps target tol dwell max_time N (clock w) 0 w"
    using dw by (simp add: await_in_band_def N_def)
  also have "\<dots> = await_loop ps target tol dwell max_time N (clock w) (if k = 0 then 0 else 0)
                     (polled dwell k w)"
    by (rule run_out_band [OF 1 N1 3])
  also have "\<dots> = Some (Inl (TimeoutError tol target), sampled (polled dwell k w))"
  proof -
    have "out_band ps target tol (n_cur (polled dwell k w))"
      using outb by (simp add: n_cur_polled)
    then show ?thesis using N1 late by (simp add: await_loop_out clock_polled md)
  qed
  finally show ?thesis by (simp add: k_def)
qed

section \<open>Every result of the loop\<close>

lemma await_loop_returns:
  assumes run: "await_loop ps target tol dwell max_time need t0 ok w = Some y"
  shows "loop_post target tol dwell max_time t0 w y"
proof (rule await_loop.raw_induct
    [where P = "\<lambda>ps target tol dwell max_time need t0 ok w y. loop_post target tol dwell max_time t0 w y",
     OF _ run])
  fix f :: "device \<Rightarrow> real \<Rightarrow> real \<Rightarrow> real \<Rightarrow> real \<Rightarrow> int \<Rightarrow> real \<Rightarrow> int \<Rightarrow> world \<Rightarrow> outcome"
  fix ps target tol dwell max_time need t0 ok w y
  assume IH: "\<And>ps target tol dwell max_time need t0 ok w y.
      f ps target tol dwell max_time need t0 ok w = Some y \<Longrightarrow> loop_post target tol dwell max_time t0 w y"
  assume body: "(case get_rdCur ps w of
        (None, w1) \<Rightarrow> Some (Inl DeviceReadError, w1)
      | (Some v, w1) \<Rightarrow>
          (let err = \<bar>v - target\<bar>;
               ok' = (if err \<le> tol then ok + 1 else 0)
           in if ok' \<ge> need then Some (Inr (), w1)
              else if clock w1 - t0 > max_time
                then Some (Inl (TimeoutError tol target), w1)
              else f ps target tol dwell max_time need t0 ok' (sleep dwell w1))) = Some y"
  show "loop_post target tol dwell max_time t0 w y"
  proof (cases "rdCur ps (n_cur w)")
    case None
    with body have "y = (Inl DeviceReadError, sampled w)"
      by (simp add: get_rdCur_eq)
    then show ?thesis by (simp add: loop_post_def sampled_def)
  next
    case (Some v)
    define ok' where "ok' = (if \<bar>v - target\<bar> \<le> tol then ok + 1 else 0)"
    consider (settled) "need \<le> ok'" | (late) "\<not> need \<le> ok'" "max_time < clock w - t0"
      | (again) "\<not> need \<le> ok'" "\<not> max_time < clock w - t0"
      by blast
    then show ?thesis
    proof cases
      case settled
      with body Some have "y = (Inr (), sampled w)"
        by (simp add: get_rdCur_eq ok'_def Let_def sampled_def split: if_splits)
      then show ?thesis by (simp add: loop_post_def sampled_def)
    next
      case late
      with body Some have "y = (Inl (TimeoutError tol target), sampled w)"
        by (simp add: get_rdCur_eq ok'_def Let_def sampled_def split: if_splits)
      then show ?thesis using late by (simp add: loop_post_def sampled_def)
    next
      case again
      with body Some have rec: "f ps target tol dwell max_time need t0 ok' (sleep dwell (sampled w)) = Some y"
        by (simp add: get_rdCur_eq ok'_def Let_def sampled_def split: if_splits)
      from IH [OF rec] obtain evs where
        e: "trace (snd y) = trace (sleep dwell (sampled w)) @ evs @ [ReadCur]"
           "set evs \<subseteq> {ReadCur, Sleep dwell}"
        and rest: "fst y \<noteq> Inl ZeroDivisionError"
          "\<forall>a b. fst y = Inl (TimeoutError a b) \<longrightarrow> a = tol \<and> b = target \<and> max_time < clock (snd y) - t0"
        unfolding loop_post_def by blast
      have "trace (snd y) = trace w @ ([ReadCur, Sleep dwell] @ evs) @ [ReadCur]"
        using e(1) by (simp add: sleep_def sampled_def)
      moreover have "set ([ReadCur, Sleep dwell] @ evs) \<subseteq> {ReadCur, Sleep dwell}"
        using e(2) by simp
      ultimately show ?thesis unfolding loop_post_def using rest by blast
    qed
  qed
qed

section \<open>The per-step executor and the dynamic timeout\<close>

lemma read_slew_eq:
  "read_slew ps w =
     ((case rdCurSlewRate ps (n_slew w) of None \<Rightarrow> 1/10 | Some s \<Rightarrow> if s \<le> 0 then 1/10 else s),
      w\<lparr>n_slew := Suc (n_slew w), trace := trace w @ [ReadSlew]\<rparr>)"
  by (simp add: read_slew_def get_rdCurSlewRate_def split: option.splits)

lemma read_slew_pos: "0 < fst (read_slew ps w)"
  by (simp add: read_slew_eq split: option.splits)

lemma await_in_band_kw_step:
  "await_in_band_kw ps step (Some tol) None None (Some mt) w =
   await_in_band ps step tol (1/10) (4/10) mt w"
  by (simp add: await_in_band_kw_def kw_default_def)

lemma per_step_unfold:
  "per_step ps pre_wait_s hold_s tol base_timeout step w =
     (case rdCur ps (n_cur w) of
        None \<Rightarrow> Some (Inl DeviceReadError, at_waiter pre_wait_s step w)
      | Some last_rd \<Rightarrow>
          hold_and_measure hold_s
            (await_in_band ps step tol (1/10) (4/10)
               (dyn_timeout base_timeout step last_rd (fst (read_slew ps w)))
               (at_waiter pre_wait_s step w)))"
proof -
  have pos: "fst (read_slew ps w) \<noteq> 0" using read_slew_pos [of ps w] by simp
  have w4: "snd (get_rdCur ps (snd (read_slew ps (mv_wrCurRamp step (sleep pre_wait_s w)))))
            = at_waiter pre_wait_s step w"
    by (simp add: get_rdCur_def read_slew_eq mv_wrCurRamp_def sleep_def at_waiter_def)
  have sl: "fst (read_slew ps (mv_wrCurRamp step (sleep pre_wait_s w))) = fst (read_slew ps w)"
    by (simp add: read_slew_eq mv_wrCurRamp_def sleep_def)
  have rd: "fst (get_rdCur ps (snd (read_slew ps (mv_wrCurRamp step (sleep pre_wait_s w)))))
            = rdCur ps (n_cur w)"
    by (simp add: get_rdCur_def read_slew_eq mv_wrCurRamp_def sleep_def)
  show ?thesis
    using pos w4 sl rd
    by (simp add: per_step_def Let_def case_prod_unfold await_in_band_kw_step split: option.splits)
qed

lemma per_step_spec_unfold:
  "per_step_spec ps pre_wait_s hold_s tol dwell stable_time max_time step w =
     (case rdCur ps (n_cur w) of
        None \<Rightarrow> Some (Inl DeviceReadError, at_waiter pre_wait_s step w)
      | Some last_rd \<Rightarrow>
          hold_and_measure hold_s
            (await_in_band ps step tol dwell stable_time max_time (at_waiter pre_wait_s step w)))"
proof -
  have w4: "snd (get_rdCur ps (snd (read_slew ps (mv_wrCurRamp step (sleep pre_wait_s w)))))
            = at_waiter pre_wait_s step w"
    by (simp add: get_rdCur_def read_slew_eq mv_wrCurRamp_def sleep_def at_waiter_def)
  have rd: "fst (get_rdCur ps (snd (read_slew ps (mv_wrCurRamp step (sleep pre_wait_s w)))))
            = rdCur ps (n_cur w)"
    by (simp add: get_rdCur_def read_slew_eq mv_wrCurRamp_def sleep_def)
  show ?thesis
    using w4 rd
    by (simp add: per_step_spec_def Let_def case_prod_unfold split: option.splits)
qed

lemma await_in_band_no_zero_division:
  assumes "dwell \<noteq> 0"
  shows "await_in_band ps target tol dwell stable_time max_time w \<noteq> Some (Inl ZeroDivisionError, w')"
proof
  assume "await_in_band ps target tol dwell stable_time max_time w = Some (Inl ZeroDivisionError, w')"
  then have "await_loop ps target tol dwell max_time (need_samples (rounding w) stable_time dwell) (clock w) 0 w
             = Some (Inl ZeroDivisionError, w')"
    using assms by (simp add: await_in_band_def)
  from await_loop_returns [OF this] show False by (simp add: loop_post_def)
qed

lemma hold_and_measure_error:
  "hold_and_measure hold_s r = Some (Inl e, w') \<longleftrightarrow> r = Some (Inl e, w')"
  by (auto simp: hold_and_measure_def split: option.splits sum.splits prod.splits)

text \<open>
  For a slew-rate reading that is a number the guard does its work: the slew rate used
  is strictly positive, the timeout is at least \<open>base_timeout + 2\<close>, and no step ends in
  a \<open>ZeroDivisionError\<close>. On such readings the guard on floats and \<open>read_slew\<close> agree.
\<close>

lemma number_slew_is_safe:
  "0 < fst (read_slew ps w)
   \<and> base_timeout + 2 \<le> dyn_timeout base_timeout step last_rd (fst (read_slew ps w))
   \<and> per_step ps pre_wait_s hold_s tol base_timeout step w \<noteq> Some (Inl ZeroDivisionError, w')"
proof (intro conjI)
  show pos: "0 < fst (read_slew ps w)" by (rule read_slew_pos)
  have "0 \<le> \<bar>step - last_rd\<bar> / fst (read_slew ps w)" using pos by simp
  then show "base_timeout + 2 \<le> dyn_timeout base_timeout step last_rd (fst (read_slew ps w))"
    by (simp add: dyn_timeout_def)
  show "per_step ps pre_wait_s hold_s tol base_timeout step w \<noteq> Some (Inl ZeroDivisionError, w')"
    by (simp add: per_step_unfold hold_and_measure_error await_in_band_no_zero_division
          split: option.splits)
qed

lemma slew_after_guard_number:
  "slew_after_guard (map_option Num (rdCurSlewRate ps (n_slew w))) = Num (fst (read_slew ps w))"
  by (simp add: slew_after_guard_def py_le_def read_slew_eq split: option.splits)

text \<open>
  Claim C10. The claim fails on a slew rate that is not a number. The test
  \<^verbatim>\<open>slew <= 0\<close> is false of NaN and nothing is raised, so NaN is the slew rate used: it is
  not strictly positive. No division by zero occurs, but the timeout computed from it
  (here for base timeout \<open>5\<close>, target \<open>1\<close>, previous readback \<open>0\<close>) is NaN, which is not
  at least \<open>base_timeout + 2\<close>; and with it the waiter's test \<^verbatim>\<open>elapsed > max_time\<close> is
  false at every sample, so that the timeout is never raised.
\<close>

theorem nan_slew_passes_the_guard:
  "slew_after_guard (Some NaN) = NaN
   \<and> \<not> py_gt (slew_after_guard (Some NaN)) (Num 0)
   \<and> dyn_to_float (Num 5) (Num 1) (Num 0) (slew_after_guard (Some NaN)) = Inr NaN
   \<and> \<not> py_le (Num (5 + 2)) NaN
   \<and> (\<forall>elapsed. \<not> timed_out elapsed NaN)"
  by (simp add: slew_after_guard_def py_le_def py_gt_def dyn_to_float_def py_div_def py_abs_def
        py_sub_def py_add_def timed_out_def)

text \<open>
  Claim C3. In every step that reaches the waiter, the waiter is called with the timeout
  \<open>base_timeout + \<bar>target - previous readback\<bar> / slew rate + 2\<close>, where the slew rate
  is the one the device reported when that is positive; for target \<open>5\<close>, previous
  readback \<open>2\<close>, slew rate \<open>1\<close> and base timeout \<open>5\<close> it is \<open>10\<close>.
\<close>

theorem step_timeout_formula:
  assumes "rdCur ps (n_cur w) = Some last_rd"
  shows "per_step ps pre_wait_s hold_s tol base_timeout step w =
           hold_and_measure hold_s
             (await_in_band ps step tol (1/10) (4/10)
                (base_timeout + \<bar>step - last_rd\<bar> / fst (read_slew ps w) + 2)
                (at_waiter pre_wait_s step w))
         \<and> (\<forall>s. rdCurSlewRate ps (n_slew w) = Some s \<and> 0 < s \<longrightarrow> fst (read_slew ps w) = s)
         \<and> dyn_timeout 5 5 2 1 = 10"
  using assms by (simp add: per_step_unfold dyn_timeout_def read_slew_eq)

theorem step_timeout_formula_witness:
  "rdCur (steady 2 1) (n_cur fresh) = Some 2
   \<and> per_step (steady 2 1) 3 2 (2/100) 5 5 fresh =
       hold_and_measure 2
         (await_in_band (steady 2 1) 5 (2/100) (1/10) (4/10) 10 (at_waiter 3 5 fresh))"
  using step_timeout_formula [of "steady 2 1" fresh 2 3 2 "2/100" 5 5]
  by (simp add: steady_def fresh_def read_slew_eq)

text \<open>
  Claim C4. When the read of the slew rate raises or returns a value that is not
  positive, \<open>0.1\<close> is used and the step goes on to the read of the current and to the
  waiter; for target \<open>1\<close>, previous readback \<open>0\<close>, a slew rate read of \<open>0\<close> and base
  timeout \<open>5\<close> the timeout is \<open>17\<close>.
\<close>

theorem slew_fallback:
  assumes "rdCurSlewRate ps (n_slew w) = None
           \<or> (\<exists>s. rdCurSlewRate ps (n_slew w) = Some s \<and> s \<le> 0)"
  shows "read_slew ps w = (1/10, w\<lparr>n_slew := Suc (n_slew w), trace := trace w @ [ReadSlew]\<rparr>)
       \<and> per_step ps pre_wait_s hold_s tol base_timeout step w =
           (case rdCur ps (n_cur w) of
              None \<Rightarrow> Some (Inl DeviceReadError, at_waiter pre_wait_s step w)
            | Some last_rd \<Rightarrow>
                hold_and_measure hold_s
                  (await_in_band ps step tol (1/10) (4/10)
                     (base_timeout + \<bar>step - last_rd\<bar> / (1/10) + 2)
                     (at_waiter pre_wait_s step w)))
       \<and> dyn_timeout 5 1 0 (1/10) = 17"
proof -
  have rs: "read_slew ps w = (1/10, w\<lparr>n_slew := Suc (n_slew w), trace := trace w @ [ReadSlew]\<rparr>)"
    using assms by (auto simp: read_slew_eq)
  then have "fst (read_slew ps w) = 1/10" by simp
  then show ?thesis using rs
    by (simp add: per_step_unfold dyn_timeout_def split: option.splits)
qed

theorem slew_fallback_witness:
  "(\<exists>s. rdCurSlewRate (steady 0 0) (n_slew fresh) = Some s \<and> s \<le> 0)
   \<and> per_step (steady 0 0) 3 2 (2/100) 5 1 fresh =
       hold_and_measure 2
         (await_in_band (steady 0 0) 1 (2/100) (1/10) (4/10) 17 (at_waiter 3 1 fresh))
   \<and> rdCurSlewRate mute_slew (n_slew fresh) = None
   \<and> per_step mute_slew 3 2 (2/100) 5 1 fresh =
       hold_and_measure 2
         (await_in_band mute_slew 1 (2/100) (1/10) (4/10) 17 (at_waiter 3 1 fresh))"
  using slew_fallback [of "steady 0 0" fresh 3 2 "2/100" 5 1]
        slew_fallback [of mute_slew fresh 3 2 "2/100" 5 1]
  by (simp add: steady_def mute_slew_def fresh_def)

text \<open>
  Claim C8, as amended. A scan with a zero step size ends in a division by zero before
  any device I/O: the world, and with it the trace, is unchanged, so there is no power-on
  command, no setpoint write and no device read. A tolerance that is not positive is
  not rejected, as the run after this theorem shows.
\<close>

theorem zero_step_rejected_before_io:
  "ramp_scan ps start stop 0 pre_wait_s hold_s tol base_timeout w
     = Some (Inl ZeroDivisionError, w)"
  by (simp add: ramp_scan_def)

section \<open>Runs of the scan\<close>

lemmas run_defs =
  ramp_scan_def scan_plan_def npts_def py_int_def linspace_def kw_default_def
  per_step_def read_slew_def get_rdCurSlewRate_def get_rdCur_def mv_wrCurRamp_def
  mv_cmdPwrOn_def sleep_def dyn_timeout_def await_in_band_kw_def await_in_band_def
  need_samples_def hold_and_measure_def trigger_and_read_def await_loop.simps
  steady_def fresh_def

text \<open>
  With the tolerance \<open>-1\<close> the scan is not rejected: it powers the device on, writes
  the setpoint and reads the device, and ends with the waiter's timeout.
\<close>

theorem nonpositive_tolerance_not_rejected:
  "map_option (\<lambda>(r, w). (r, take 5 (trace w)))
     (ramp_scan (steady 0 1) 0 0 1 None None (Some (-1)) None fresh)
   = Some (Inl (TimeoutError (-1) 0), [PowerOn, Sleep 3, SetCur 0, ReadSlew, ReadCur])"
  by (simp add: run_defs)

section \<open>The waiter settles or times out\<close>









text \<open>
  Claim C5. When every sample is out of tolerance, the waiter raises the timeout, which
  carries the tolerance and the target, at the first sample taken strictly after
  \<open>max_time\<close> seconds: never before \<open>max_time\<close> has elapsed, and at most one dwell
  later.
\<close>

theorem waiter_times_out:
  assumes "0 < dwell" and "0 \<le> max_time"
    and "\<forall>j. out_band ps target tol (n_cur w + j)"
  shows "await_in_band ps target tol dwell stable_time max_time w =
           Some (Inl (TimeoutError tol target),
                 sampled (polled dwell (nat (\<lfloor>max_time / dwell\<rfloor> + 1)) w))
       \<and> max_time < clock (sampled (polled dwell (nat (\<lfloor>max_time / dwell\<rfloor> + 1)) w)) - clock w
       \<and> clock (sampled (polled dwell (nat (\<lfloor>max_time / dwell\<rfloor> + 1)) w)) - clock w
           \<le> max_time + dwell"
proof -
  have md: "max 0 dwell = dwell" using assms(1) by simp
  have c: "clock (sampled (polled dwell (nat (\<lfloor>max_time / dwell\<rfloor> + 1)) w)) - clock w
           = real (nat (\<lfloor>max_time / dwell\<rfloor> + 1)) * dwell"
    by (simp add: sampled_def polled_def md)
  have lo: "max_time < real (nat (\<lfloor>max_time / dwell\<rfloor> + 1)) * dwell"
    and hi: "real (nat (\<lfloor>max_time / dwell\<rfloor> + 1)) * dwell \<le> max_time + dwell"
    using ticks_bounds(1,2) [OF assms(1,2)] by simp_all
  show ?thesis
    using await_all_out_band [OF assms] lo hi by (simp only: c simp_thms)
qed

theorem waiter_times_out_witness:
  "(\<forall>j. out_band (steady 0 1) 5 (2/100) (n_cur fresh + j))
   \<and> await_in_band (steady 0 1) 5 (2/100) (1/10) (4/10) 1 fresh
       = Some (Inl (TimeoutError (2/100) 5), sampled (polled (1/10) 11 fresh))
   \<and> clock (sampled (polled (1/10) 11 fresh)) = 11/10"
  using waiter_times_out [of "1/10" 1 "steady 0 1" 5 "2/100" fresh "4/10"]
  by (simp add: out_band_def steady_def fresh_def sampled_def polled_def)

text \<open>
  Claim C9. Success takes priority over the timeout. At a sample that brings the counter
  to \<open>need\<close> the loop returns successfully whatever the clock says; the timeout is raised
  at a sample exactly when the counter is still below \<open>need\<close> there and the elapsed time
  strictly exceeds \<open>max_time\<close>; otherwise the loop sleeps and polls again. So a waiter
  that raised the timeout did so strictly after \<open>max_time\<close>.
\<close>

theorem success_has_priority_over_timeout:
  assumes "rdCur ps (n_cur w) = Some v"
  shows "(need \<le> (if \<bar>v - target\<bar> \<le> tol then ok + 1 else 0) \<longrightarrow>
            await_loop ps target tol dwell max_time need t0 ok w = Some (Inr (), sampled w))
       \<and> ((if \<bar>v - target\<bar> \<le> tol then ok + 1 else 0) < need \<and> max_time < clock w - t0 \<longrightarrow>
            await_loop ps target tol dwell max_time need t0 ok w
              = Some (Inl (TimeoutError tol target), sampled w))
       \<and> ((if \<bar>v - target\<bar> \<le> tol then ok + 1 else 0) < need \<and> clock w - t0 \<le> max_time \<longrightarrow>
            await_loop ps target tol dwell max_time need t0 ok w
              = await_loop ps target tol dwell max_time need t0
                  (if \<bar>v - target\<bar> \<le> tol then ok + 1 else 0) (sleep dwell (sampled w)))
       \<and> (\<forall>a b w'. await_in_band ps target tol dwell stable_time max_time w
                      = Some (Inl (TimeoutError a b), w') \<longrightarrow>
              a = tol \<and> b = target \<and> max_time < clock w' - clock w)"
proof (intro conjI impI allI)
  assume "need \<le> (if \<bar>v - target\<bar> \<le> tol then ok + 1 else 0)"
  then show "await_loop ps target tol dwell max_time need t0 ok w = Some (Inr (), sampled w)"
    using assms by (subst await_loop.simps) (simp add: get_rdCur_eq)
next
  assume "(if \<bar>v - target\<bar> \<le> tol then ok + 1 else 0) < need \<and> max_time < clock w - t0"
  then show "await_loop ps target tol dwell max_time need t0 ok w
              = Some (Inl (TimeoutError tol target), sampled w)"
    using assms by (subst await_loop.simps) (simp add: get_rdCur_eq sampled_def)
next
  assume "(if \<bar>v - target\<bar> \<le> tol then ok + 1 else 0) < need \<and> clock w - t0 \<le> max_time"
  then show "await_loop ps target tol dwell max_time need t0 ok w
              = await_loop ps target tol dwell max_time need t0
                  (if \<bar>v - target\<bar> \<le> tol then ok + 1 else 0) (sleep dwell (sampled w))"
    using assms by (subst await_loop.simps) (simp add: get_rdCur_eq sampled_def)
next
  fix a b w'
  assume r: "await_in_band ps target tol dwell stable_time max_time w = Some (Inl (TimeoutError a b), w')"
  then have "dwell \<noteq> 0" by (auto simp: await_in_band_def split: if_splits)
  with r have "await_loop ps target tol dwell max_time (need_samples (rounding w) stable_time dwell) (clock w) 0 w
               = Some (Inl (TimeoutError a b), w')"
    by (simp add: await_in_band_def)
  from await_loop_returns [OF this]
  have f: "a = tol \<and> b = target \<and> max_time < clock w' - clock w"
    by (simp add: loop_post_def)
  show "a = tol" and "b = target" and "max_time < clock w' - clock w"
    using f by simp_all
qed

theorem success_has_priority_over_timeout_witness:
  "rdCur (steady 0 1) (n_cur fresh) = Some 0
   \<and> (-1::real) < clock fresh - 0
   \<and> await_loop (steady 0 1) 0 (2/100) (1/10) (-1) 1 0 0 fresh = Some (Inr (), sampled fresh)
   \<and> await_loop (steady 0 1) 0 (2/100) (1/10) (-1) 2 0 0 fresh
       = Some (Inl (TimeoutError (2/100) 0), sampled fresh)"
  using success_has_priority_over_timeout
          [where ps = "steady 0 1" and w = fresh and v = 0 and target = 0 and tol = "2/100"
             and ok = 0 and need = 1 and max_time = "-1" and ?t0.0 = 0 and dwell = "1/10"]
        success_has_priority_over_timeout
          [where ps = "steady 0 1" and w = fresh and v = 0 and target = 0 and tol = "2/100"
             and ok = 0 and need = 2 and max_time = "-1" and ?t0.0 = 0 and dwell = "1/10"]
  by (simp add: steady_def fresh_def)

section \<open>A timeout ends the step and the scan\<close>

lemma await_in_band_trace:
  assumes "dwell \<noteq> 0"
    and "await_in_band ps target tol dwell stable_time max_time w = Some (r, w')"
  shows "\<exists>evs. trace w' = trace w @ evs @ [ReadCur] \<and> set evs \<subseteq> {ReadCur, Sleep dwell}"
proof -
  have "await_loop ps target tol dwell max_time (need_samples (rounding w) stable_time dwell) (clock w) 0 w
        = Some (r, w')"
    using assms by (simp add: await_in_band_def)
  from await_loop_returns [OF this] show ?thesis by (simp add: loop_post_def)
qed

lemma hold_and_measure_success:
  "hold_and_measure hold_s r = Some (Inr u, w') \<longleftrightarrow>
     (\<exists>w5. r = Some (Inr (), w5) \<and> w' = trigger_and_read (sleep hold_s w5))"
  by (auto simp: hold_and_measure_def split: option.splits sum.splits prod.splits)

lemma run_steps_stops:
  assumes "run_steps f done_pts w0 = Some (Inr (), w)" and "f p w = Some (Inl e, w')"
  shows "run_steps f (done_pts @ p # rest) w0 = Some (Inl e, w')"
  using assms
proof (induction done_pts arbitrary: w0)
  case Nil
  then show ?case by simp
next
  case (Cons q qs)
  from Cons.prems(1) obtain w1 where q: "f q w0 = Some (Inr (), w1)"
    and qs: "run_steps f qs w1 = Some (Inr (), w)"
    by (auto split: option.splits sum.splits prod.splits)
  from Cons.IH [OF qs Cons.prems(2)] q show ?case by simp
qed

lemma trace_at_waiter:
  "trace (at_waiter pre_wait_s step w) = trace w @ [Sleep pre_wait_s, SetCur step, ReadSlew, ReadCur]"
  by (simp add: at_waiter_def)

text \<open>
  Claim C7. When the waiter of a step raises (a timeout in particular), the step ends
  there with the same error, in the world the waiter left: the last event is the sample
  that failed, so no hold sleep and no measurement follow, and the scan issues no further
  setpoint. Dually, a step whose events contain a measurement is one whose waiter
  returned successfully, and the measurement is its last event, after the hold.
\<close>

theorem timeout_ends_step_and_scan:
  "(rdCur ps (n_cur w) = Some last_rd
      \<and> await_in_band ps step tol (1/10) (4/10)
          (dyn_timeout base_timeout step last_rd (fst (read_slew ps w)))
          (at_waiter pre_wait_s step w) = Some (Inl e, w5) \<longrightarrow>
      per_step ps pre_wait_s hold_s tol base_timeout step w = Some (Inl e, w5)
      \<and> (\<exists>evs. trace w5 = trace w @ [Sleep pre_wait_s, SetCur step, ReadSlew, ReadCur] @ evs @ [ReadCur]
                \<and> set evs \<subseteq> {ReadCur, Sleep (1/10)})
      \<and> (\<forall>done_pts rest w0.
            run_steps (per_step ps pre_wait_s hold_s tol base_timeout) done_pts w0 = Some (Inr (), w) \<longrightarrow>
            run_steps (per_step ps pre_wait_s hold_s tol base_timeout) (done_pts @ step # rest) w0
              = Some (Inl e, w5)))
   \<and> (per_step ps pre_wait_s hold_s tol base_timeout step w = Some (r, w')
      \<and> Trigger \<in> set (drop (length (trace w)) (trace w')) \<longrightarrow>
      r = Inr ()
      \<and> (\<exists>rd w6. rdCur ps (n_cur w) = Some rd
            \<and> await_in_band ps step tol (1/10) (4/10)
                (dyn_timeout base_timeout step rd (fst (read_slew ps w)))
                (at_waiter pre_wait_s step w) = Some (Inr (), w6)
            \<and> w' = trigger_and_read (sleep hold_s w6)
            \<and> trace w' = trace w6 @ [Sleep hold_s, Trigger]))"
proof (intro conjI impI)
  assume a: "rdCur ps (n_cur w) = Some last_rd
      \<and> await_in_band ps step tol (1/10) (4/10)
          (dyn_timeout base_timeout step last_rd (fst (read_slew ps w)))
          (at_waiter pre_wait_s step w) = Some (Inl e, w5)"
  then show ps: "per_step ps pre_wait_s hold_s tol base_timeout step w = Some (Inl e, w5)"
    by (simp add: per_step_unfold hold_and_measure_def)
  from a have "\<exists>evs. trace w5 = trace (at_waiter pre_wait_s step w) @ evs @ [ReadCur]
                  \<and> set evs \<subseteq> {ReadCur, Sleep (1/10)}"
    by (intro await_in_band_trace [where r = "Inl e"]) auto
  then show "\<exists>evs. trace w5 = trace w @ [Sleep pre_wait_s, SetCur step, ReadSlew, ReadCur] @ evs @ [ReadCur]
                \<and> set evs \<subseteq> {ReadCur, Sleep (1/10)}"
    by (simp add: trace_at_waiter)
  show "\<forall>done_pts rest w0.
            run_steps (per_step ps pre_wait_s hold_s tol base_timeout) done_pts w0 = Some (Inr (), w) \<longrightarrow>
            run_steps (per_step ps pre_wait_s hold_s tol base_timeout) (done_pts @ step # rest) w0
              = Some (Inl e, w5)"
    using run_steps_stops
            [where f = "per_step ps pre_wait_s hold_s tol base_timeout" and p = step, OF _ ps]
    by blast
next
  assume b: "per_step ps pre_wait_s hold_s tol base_timeout step w = Some (r, w')
      \<and> Trigger \<in> set (drop (length (trace w)) (trace w'))"
  have main: "r = Inr ()
      \<and> (\<exists>rd w6. rdCur ps (n_cur w) = Some rd
            \<and> await_in_band ps step tol (1/10) (4/10)
                (dyn_timeout base_timeout step rd (fst (read_slew ps w)))
                (at_waiter pre_wait_s step w) = Some (Inr (), w6)
            \<and> w' = trigger_and_read (sleep hold_s w6)
            \<and> trace w' = trace w6 @ [Sleep hold_s, Trigger])"
  proof (cases "rdCur ps (n_cur w)")
    case None
    with b have "w' = at_waiter pre_wait_s step w" by (simp add: per_step_unfold)
    with b show ?thesis by (simp add: trace_at_waiter)
  next
    case (Some rd)
    let ?run = "await_in_band ps step tol (1/10) (4/10)
                  (dyn_timeout base_timeout step rd (fst (read_slew ps w)))
                  (at_waiter pre_wait_s step w)"
    from b Some have h: "hold_and_measure hold_s ?run = Some (r, w')"
      by (simp add: per_step_unfold)
    show ?thesis
    proof (cases r)
      case (Inl e)
      with h have run: "?run = Some (Inl e, w')" by (simp add: hold_and_measure_error)
      have "\<exists>evs. trace w' = trace (at_waiter pre_wait_s step w) @ evs @ [ReadCur]
                  \<and> set evs \<subseteq> {ReadCur, Sleep (1/10)}"
        by (rule await_in_band_trace [OF _ run]) simp
      then obtain evs where "trace w' = trace w @ [Sleep pre_wait_s, SetCur step, ReadSlew, ReadCur] @ evs @ [ReadCur]"
        and "set evs \<subseteq> {ReadCur, Sleep (1/10)}"
        by (auto simp: trace_at_waiter)
      then have "Trigger \<notin> set (drop (length (trace w)) (trace w'))" by auto
      with b show ?thesis by simp
    next
      case (Inr u)
      with h obtain w6 where "?run = Some (Inr (), w6)" and "w' = trigger_and_read (sleep hold_s w6)"
        by (auto simp: hold_and_measure_success)
      then show ?thesis using Some Inr
        by (auto simp: trigger_and_read_def sleep_def)
    qed
  qed
  from main show "r = Inr ()" by simp
  from main show "\<exists>rd w6. rdCur ps (n_cur w) = Some rd
            \<and> await_in_band ps step tol (1/10) (4/10)
                (dyn_timeout base_timeout step rd (fst (read_slew ps w)))
                (at_waiter pre_wait_s step w) = Some (Inr (), w6)
            \<and> w' = trigger_and_read (sleep hold_s w6)
            \<and> trace w' = trace w6 @ [Sleep hold_s, Trigger]" by simp
qed

theorem timeout_ends_step_and_scan_witness:
  "per_step (steady 0 1) 3 2 (2/100) 5 1 fresh
     = Some (Inl (TimeoutError (2/100) 1), sampled (polled (1/10) 81 (at_waiter 3 1 fresh)))
   \<and> run_steps (per_step (steady 0 1) 3 2 (2/100) 5) ([] @ 1 # [2, 3]) fresh
     = Some (Inl (TimeoutError (2/100) 1), sampled (polled (1/10) 81 (at_waiter 3 1 fresh)))
   \<and> per_step (steady 0 1) 3 2 (2/100) 5 0 fresh
     = Some (Inr (), trigger_and_read (sleep 2 (sampled (polled (1/10) 3 (at_waiter 3 0 fresh)))))
   \<and> Trigger \<in> set (drop (length (trace fresh))
        (trace (trigger_and_read (sleep 2 (sampled (polled (1/10) 3 (at_waiter 3 0 fresh)))))))
   \<and> await_in_band (steady 0 1) 0 (2/100) (1/10) (4/10) 7 (at_waiter 3 0 fresh)
     = Some (Inr (), sampled (polled (1/10) 3 (at_waiter 3 0 fresh)))"
proof -
  have out: "await_in_band (steady 0 1) 1 (2/100) (1/10) (4/10) 8 (at_waiter 3 1 fresh)
     = Some (Inl (TimeoutError (2/100) 1), sampled (polled (1/10) 81 (at_waiter 3 1 fresh)))"
    using await_all_out_band [of "1/10" 8 "steady 0 1" 1 "2/100" "at_waiter 3 1 fresh" "4/10"]
    by (simp add: out_band_def steady_def)
  have inb: "await_in_band (steady 0 1) 0 (2/100) (1/10) (4/10) 7 (at_waiter 3 0 fresh)
     = Some (Inr (), sampled (polled (1/10) 3 (at_waiter 3 0 fresh)))"
    using await_all_in_band [of "1/10" "steady 0 1" 0 "2/100" "at_waiter 3 0 fresh" "4/10" 7]
    by (simp add: in_band_def steady_def need_samples_def py_int_def fresh_def)
  have ok: "per_step (steady 0 1) 3 2 (2/100) 5 0 fresh
     = Some (Inr (), trigger_and_read (sleep 2 (sampled (polled (1/10) 3 (at_waiter 3 0 fresh)))))"
    using inb
    by (simp add: per_step_unfold hold_and_measure_def dyn_timeout_def read_slew_eq steady_def fresh_def)
  have tr: "Trigger \<in> set (drop (length (trace fresh))
        (trace (trigger_and_read (sleep 2 (sampled (polled (1/10) 3 (at_waiter 3 0 fresh)))))))"
    by (simp add: fresh_def trigger_and_read_def sleep_def sampled_def polled_def at_waiter_def)
  show ?thesis
    using timeout_ends_step_and_scan
            [where ps = "steady 0 1" and w = fresh and last_rd = 0 and step = 1 and tol = "2/100"
               and base_timeout = 5 and pre_wait_s = 3 and hold_s = 2
               and e = "TimeoutError (2/100) 1"
               and ?w5.0 = "sampled (polled (1/10) 81 (at_waiter 3 1 fresh))"]
          timeout_ends_step_and_scan
            [where ps = "steady 0 1" and w = fresh and step = 0 and tol = "2/100"
               and base_timeout = 5 and pre_wait_s = 3 and hold_s = 2 and r = "Inr ()"
               and w' = "trigger_and_read (sleep 2 (sampled (polled (1/10) 3 (at_waiter 3 0 fresh))))"]
          out inb ok tr
    by (simp add: dyn_timeout_def read_slew_eq steady_def fresh_def)
qed

section \<open>The setpoint sequence\<close>
















section \<open>Tunables of the scan\<close>

text \<open>
  Claim C6, as amended. A scan accepts the tunables \<open>pre_wait_s\<close>, \<open>hold_s\<close>, \<open>tol\<close> and
  \<open>base_timeout\<close>, with the defaults \<open>3\<close>, \<open>2\<close>, \<open>0.02\<close> and \<open>5\<close>. It accepts no \<open>dwell\<close>,
  \<open>stable_time\<close> or \<open>max_time\<close>: these are keyword arguments of the waiter alone (with the
  defaults \<open>0.1\<close>, \<open>0.4\<close> and \<open>10\<close>), and in every step the waiter polls with the dwell
  \<open>0.1\<close>, the stable time \<open>0.4\<close> and, as \<open>max_time\<close>, the dynamic timeout of that step.
\<close>

theorem scan_tunables:
  "ramp_scan ps start stop step None None None None w
     = ramp_scan ps start stop step (Some 3) (Some 2) (Some (2/100)) (Some 5) w
   \<and> await_in_band_kw ps target None None None None w
     = await_in_band ps target (2/100) (1/10) (4/10) 10 w
   \<and> (rdCur ps (n_cur w) = Some last_rd \<longrightarrow>
        per_step ps pre_wait_s hold_s tol base_timeout step w
          = per_step_spec ps pre_wait_s hold_s tol (1/10) (4/10)
              (dyn_timeout base_timeout step last_rd (fst (read_slew ps w))) step w)"
  by (simp add: ramp_scan_def kw_default_def await_in_band_kw_def per_step_unfold
        per_step_spec_unfold)

theorem scan_tunables_witness:
  "rdCur (steady 0 1) (n_cur fresh) = Some 0
   \<and> per_step (steady 0 1) 3 2 (2/100) 5 1 fresh
       = per_step_spec (steady 0 1) 3 2 (2/100) (1/10) (4/10) 8 1 fresh"
  using scan_tunables [where ps = "steady 0 1" and w = fresh and last_rd = 0 and pre_wait_s = 3
      and hold_s = 2 and tol = "2/100" and base_timeout = 5 and step = 1]
  by (simp add: steady_def fresh_def dyn_timeout_def read_slew_eq)

text \<open>
  The claim as stated fails: in a scan with every tunable at its default the waiter
  does not poll with \<open>max_time = 10\<close>. Against a device that stays at \<open>0\<close> while the
  setpoint is \<open>1\<close>, the step gives up \<open>8.1\<close> seconds into the wait; polling with
  \<open>max_time = 10\<close> would give up after \<open>10.1\<close> seconds.
\<close>

theorem waiter_ignores_max_time_default:
  "per_step (steady 0 1) 3 2 (2/100) 5 1 fresh
     = Some (Inl (TimeoutError (2/100) 1), sampled (polled (1/10) 81 (at_waiter 3 1 fresh)))
   \<and> per_step_spec (steady 0 1) 3 2 (2/100) (1/10) (4/10) 10 1 fresh
     = Some (Inl (TimeoutError (2/100) 1), sampled (polled (1/10) 101 (at_waiter 3 1 fresh)))
   \<and> clock (sampled (polled (1/10) 81 (at_waiter 3 1 fresh))) - clock (at_waiter 3 1 fresh) = 81/10
   \<and> clock (sampled (polled (1/10) 101 (at_waiter 3 1 fresh))) - clock (at_waiter 3 1 fresh) = 101/10"
proof -
  have a: "await_in_band (steady 0 1) 1 (2/100) (1/10) (4/10) 8 (at_waiter 3 1 fresh)
     = Some (Inl (TimeoutError (2/100) 1), sampled (polled (1/10) 81 (at_waiter 3 1 fresh)))"
    using await_all_out_band [of "1/10" 8 "steady 0 1" 1 "2/100" "at_waiter 3 1 fresh" "4/10"]
    by (simp add: out_band_def steady_def)
  have b: "await_in_band (steady 0 1) 1 (2/100) (1/10) (4/10) 10 (at_waiter 3 1 fresh)
     = Some (Inl (TimeoutError (2/100) 1), sampled (polled (1/10) 101 (at_waiter 3 1 fresh)))"
    using await_all_out_band [of "1/10" 10 "steady 0 1" 1 "2/100" "at_waiter 3 1 fresh" "4/10"]
    by (simp add: out_band_def steady_def)
  have c: "per_step (steady 0 1) 3 2 (2/100) 5 1 fresh
     = Some (Inl (TimeoutError (2/100) 1), sampled (polled (1/10) 81 (at_waiter 3 1 fresh)))"
    using a
    by (simp add: per_step_unfold hold_and_measure_def dyn_timeout_def read_slew_eq steady_def fresh_def)
  have d: "per_step_spec (steady 0 1) 3 2 (2/100) (1/10) (4/10) 10 1 fresh
     = Some (Inl (TimeoutError (2/100) 1), sampled (polled (1/10) 101 (at_waiter 3 1 fresh)))"
    using b
    by (simp add: per_step_spec_unfold hold_and_measure_def steady_def fresh_def)
  have e: "clock (sampled (polled (1/10) 81 (at_waiter 3 1 fresh))) - clock (at_waiter 3 1 fresh) = 81/10"
    "clock (sampled (polled (1/10) 101 (at_waiter 3 1 fresh))) - clock (at_waiter 3 1 fresh) = 101/10"
    by (simp_all add: sampled_def polled_def)
  from c d e show ?thesis by blast
qed

end
